theory Spec2Isabelle
  imports Main
begin

section \<open>v.vect.stats.multi: statistics for several columns and methods\<close>

text \<open>
  A shallow embedding of \<^verbatim>\<open>src/vector/v.vect.stats.multi/v.vect.stats.multi.py\<close>.
  The script reads its parsed options, asks the attribute table of the points map for its
  columns, validates the column and name lists, and then runs the module
  \<^verbatim>\<open>v.vect.stats\<close> once for every pair of a column and a method.

  What lies outside the script is a parameter of the model:
  \<^item> the two answers of \<^verbatim>\<open>gs.vector_columns\<close> (the dictionary from a column name to its
    SQL type, and the list of names in database order);
  \<^item> the module run by \<^verbatim>\<open>gs.run_command\<close>, a function from the keyword arguments and the
    state of the outside world to a success flag and the new state.
  What the script does to the outside is a list of events, in the order of their emission.
  Python integers are \<open>int\<close>; list positions are \<open>nat\<close>.
\<close>

subsection \<open>Strings\<close>

text \<open>
  \<^verbatim>\<open>str.split(",")\<close>: the pieces between the separators; the empty string gives one
  empty piece, and two adjacent separators give an empty piece between them.
\<close>

fun split_py :: "char \<Rightarrow> string \<Rightarrow> string list" where
  "split_py sep [] = [[]]"
| "split_py sep (c # cs) =
     (if c = sep then [] # split_py sep cs
      else (case split_py sep cs of
              [] \<Rightarrow> [[c]]
            | piece # pieces \<Rightarrow> (c # piece) # pieces))"

text \<open>
  \<^verbatim>\<open>str.upper()\<close> on ASCII text: the letters \<open>a\<close> to \<open>z\<close> become \<open>A\<close> to \<open>Z\<close>, every
  other character stays as it is. The SQL type names a database reports are ASCII text;
  what Python does to letters outside ASCII is not part of the model.
\<close>

definition upper_char :: "char \<Rightarrow> char" where
  "upper_char c =
     (case map_of (zip ''abcdefghijklmnopqrstuvwxyz'' ''ABCDEFGHIJKLMNOPQRSTUVWXYZ'') c of
        None \<Rightarrow> c
      | Some u \<Rightarrow> u)"

definition upper :: "string \<Rightarrow> string" where
  "upper s = map upper_char s"

subsection \<open>The numeric SQL types (lines 112 to 138)\<close>

definition SQL_INT_TYPES :: "string list" where
  "SQL_INT_TYPES =
     [''INT'', ''INTEGER'', ''TINYINT'', ''SMALLINT'', ''MEDIUMINT'', ''BIGINT'',
      ''UNSIGNED BIG INT'', ''INT2'', ''INT8'']"

definition SQL_FLOAT_TYPES :: "string list" where
  "SQL_FLOAT_TYPES =
     [''REAL'', ''DOUBLE'', ''DOUBLE PRECISION'', ''FLOAT'', ''FLOATING POINT'']"

definition SQL_NUMERIC_TYPES :: "string list" where
  "SQL_NUMERIC_TYPES = SQL_INT_TYPES @ SQL_FLOAT_TYPES"

definition sql_type_is_numeric :: "string \<Rightarrow> bool" where
  "sql_type_is_numeric sql_type = (upper sql_type \<in> set SQL_NUMERIC_TYPES)"

subsection \<open>Options, errors and events\<close>

text \<open>
  The dictionary returned by \<^verbatim>\<open>gs.parser()\<close> has one entry for every option the header
  declares; an option that was not given is the empty string.
\<close>

record options =
  o_points :: string
  o_areas :: string
  o_type :: string
  o_points_layer :: string
  o_points_cats :: string
  o_points_where :: string
  o_areas_layer :: string
  o_areas_cats :: string
  o_areas_where :: string
  o_method :: string
  o_points_columns :: string
  o_count_column :: string
  o_stats_columns :: string

text \<open>The copy of the options without the three entries the script handles itself.\<close>

record modified_options =
  m_points :: string
  m_areas :: string
  m_type :: string
  m_points_layer :: string
  m_points_cats :: string
  m_points_where :: string
  m_areas_layer :: string
  m_areas_cats :: string
  m_areas_where :: string
  m_count_column :: string

definition modified :: "options \<Rightarrow> modified_options" where
  "modified opts =
     \<lparr> m_points = o_points opts, m_areas = o_areas opts, m_type = o_type opts,
       m_points_layer = o_points_layer opts, m_points_cats = o_points_cats opts,
       m_points_where = o_points_where opts, m_areas_layer = o_areas_layer opts,
       m_areas_cats = o_areas_cats opts, m_areas_where = o_areas_where opts,
       m_count_column = o_count_column opts \<rparr>"

text \<open>The arguments of one \<^verbatim>\<open>gs.run_command\<close> call (lines 237 to 245).\<close>

record run_command =
  module :: string
  kw_method :: string
  kw_points_column :: string
  kw_stats_column :: string
  kw_quiet :: bool
  kw_options :: modified_options
  kw_errors :: string

text \<open>
  \<^verbatim>\<open>gs.fatal\<close> prints its message and ends the program. Each constructor carries the
  values its message is formatted from, in the order of their first appearance.
\<close>

datatype fatal =
    ColumnNotFound string string string
  | NotNumeric string string string
  | NamesCount int int int int
  | NamesNotUnique int int

datatype failure =
    Fatal fatal
  | KeyError string
  | IndexError nat

datatype event =
    Run run_command
  | Percent int int int

text \<open>
  How a run ends: \<open>Returned 0\<close> when \<^verbatim>\<open>main\<close> reaches its \<^verbatim>\<open>return 0\<close>, \<open>Failed\<close> at a
  fatal message or an uncaught exception, \<open>ModuleFailed i\<close> when the module run for
  position \<open>i\<close> failed and \<^verbatim>\<open>errors="exit"\<close> ended the program.
\<close>

datatype outcome =
    Returned int
  | Failed failure
  | ModuleFailed nat

subsection \<open>The columns to compute statistics from (lines 144 to 182)\<close>

text \<open>Lines 158 to 162: all numeric columns, in the order of the database.\<close>

fun numeric_columns :: "(string \<rightharpoonup> string) \<Rightarrow> string list \<Rightarrow> failure + string list" where
  "numeric_columns input_vector_columns [] = Inr []"
| "numeric_columns input_vector_columns (name # names) =
     (case input_vector_columns name of
        None \<Rightarrow> Inl (KeyError name)
      | Some column_type \<Rightarrow>
          (case numeric_columns input_vector_columns names of
             Inl e \<Rightarrow> Inl e
           | Inr points_columns \<Rightarrow>
               Inr (if sql_type_is_numeric column_type then name # points_columns
                    else points_columns)))"

text \<open>Lines 165 to 182: the check of the columns the user gave, in the order given.\<close>

fun check_columns ::
  "string \<Rightarrow> string \<Rightarrow> (string \<rightharpoonup> string) \<Rightarrow> string list \<Rightarrow> failure + unit" where
  "check_columns points_name points_layer input_vector_columns [] = Inr ()"
| "check_columns points_name points_layer input_vector_columns (name # names) =
     (case input_vector_columns name of
        None \<Rightarrow> Inl (Fatal (ColumnNotFound name points_name points_layer))
      | Some column_type \<Rightarrow>
          if \<not> sql_type_is_numeric column_type
          then Inl (Fatal (NotNumeric name points_name column_type))
          else check_columns points_name points_layer input_vector_columns names)"

definition resolve_columns ::
  "options \<Rightarrow> (string \<rightharpoonup> string) \<Rightarrow> string list \<Rightarrow> failure + string list" where
  "resolve_columns opts input_vector_columns all_column_names =
     (let points_columns =
            (if o_points_columns opts \<noteq> [] then split_py CHR '','' (o_points_columns opts)
             else [])
      in if points_columns = [] then numeric_columns input_vector_columns all_column_names
         else (case check_columns (o_points opts) (o_points_layer opts)
                      input_vector_columns points_columns of
                 Inl e \<Rightarrow> Inl e
               | Inr _ \<Rightarrow> Inr points_columns))"

subsection \<open>The names of the new columns (lines 184 to 215)\<close>

definition check_stats_columns ::
  "string \<Rightarrow> string list \<Rightarrow> string list \<Rightarrow> failure + string list" where
  "check_stats_columns stats_columns points_columns methods =
     (let num_new_columns = int (length points_columns) * int (length methods)
      in if stats_columns \<noteq> [] then
           (let stats_columns_names = split_py CHR '','' stats_columns;
                names_provided = int (length stats_columns_names)
            in if names_provided \<noteq> num_new_columns
               then Inl (Fatal (NamesCount names_provided (int (length points_columns))
                                  (int (length methods)) num_new_columns))
               else (let num_unique_names = int (card (set stats_columns_names))
                     in if names_provided \<noteq> num_unique_names
                        then Inl (Fatal (NamesNotUnique names_provided num_unique_names))
                        else Inr stats_columns_names))
         else Inr [])"

subsection \<open>The loop over columns and methods (lines 232 to 246)\<close>

text \<open>
  \<^verbatim>\<open>itertools.product(a, b)\<close>: for every element of \<open>a\<close> in turn, every element of \<open>b\<close>.
\<close>

fun product_py :: "'a list \<Rightarrow> 'b list \<Rightarrow> ('a \<times> 'b) list" where
  "product_py [] ys = []"
| "product_py (x # xs) ys = map (Pair x) ys @ product_py xs ys"

text \<open>Lines 233 to 236: the name of the new column at position \<open>i\<close>.\<close>

definition stats_column_name ::
  "string list \<Rightarrow> nat \<Rightarrow> string \<Rightarrow> string \<Rightarrow> failure + string" where
  "stats_column_name stats_columns_names i points_column method =
     (if stats_columns_names \<noteq> [] then
        (if i < length stats_columns_names then Inr (stats_columns_names ! i)
         else Inl (IndexError i))
      else Inr (points_column @ ''_'' @ method))"

definition command ::
  "modified_options \<Rightarrow> string \<Rightarrow> string \<Rightarrow> string \<Rightarrow> run_command" where
  "command mo method points_column stats_column =
     \<lparr> module = ''v.vect.stats'', kw_method = method, kw_points_column = points_column,
       kw_stats_column = stats_column, kw_quiet = True, kw_options = mo,
       kw_errors = ''exit'' \<rparr>"

text \<open>
  The loop from position \<open>i\<close> on, over the pairs still to come. It gives how the loop
  ends (\<open>None\<close>: it ran to its end), the events emitted and the state of the outside.
\<close>

fun loop ::
  "(run_command \<Rightarrow> 'w \<Rightarrow> bool \<times> 'w) \<Rightarrow> modified_options \<Rightarrow> string list \<Rightarrow> int \<Rightarrow>
   nat \<Rightarrow> (string \<times> string) list \<Rightarrow> 'w \<Rightarrow> outcome option \<times> event list \<times> 'w" where
  "loop run mo stats_columns_names num_new_columns i [] w = (None, [], w)"
| "loop run mo stats_columns_names num_new_columns i ((points_column, method) # pairs) w =
     (case stats_column_name stats_columns_names i points_column method of
        Inl e \<Rightarrow> (Some (Failed e), [], w)
      | Inr name \<Rightarrow>
          (let c = command mo method points_column name;
               (ok, w') = run c w
           in if \<not> ok then (Some (ModuleFailed i), [Run c], w')
              else (case loop run mo stats_columns_names num_new_columns (Suc i) pairs w' of
                      (out, events, w'') \<Rightarrow>
                        (out, Run c # Percent (int i) num_new_columns 1 # events, w''))))"

subsection \<open>The program (lines 141 to 249)\<close>

text \<open>Everything before the loop: the three lists the loop works on, or the failure.\<close>

definition prepare ::
  "options \<Rightarrow> (string \<rightharpoonup> string) \<Rightarrow> string list \<Rightarrow>
   failure + (string list \<times> string list \<times> string list)" where
  "prepare opts input_vector_columns all_column_names =
     (case resolve_columns opts input_vector_columns all_column_names of
        Inl e \<Rightarrow> Inl e
      | Inr points_columns \<Rightarrow>
          (let methods = split_py CHR '','' (o_method opts)
           in case check_stats_columns (o_stats_columns opts) points_columns methods of
                Inl e \<Rightarrow> Inl e
              | Inr stats_columns_names \<Rightarrow>
                  Inr (points_columns, methods, stats_columns_names)))"

definition main ::
  "options \<Rightarrow> (string \<rightharpoonup> string) \<Rightarrow> string list \<Rightarrow> (run_command \<Rightarrow> 'w \<Rightarrow> bool \<times> 'w) \<Rightarrow>
   'w \<Rightarrow> outcome \<times> event list \<times> 'w" where
  "main opts input_vector_columns all_column_names run w =
     (case prepare opts input_vector_columns all_column_names of
        Inl e \<Rightarrow> (Failed e, [], w)
      | Inr (points_columns, methods, stats_columns_names) \<Rightarrow>
          (let num_new_columns = int (length points_columns) * int (length methods)
           in case loop run (modified opts) stats_columns_names num_new_columns 0
                     (product_py points_columns methods) w of
                (Some out, events, w') \<Rightarrow> (out, events, w')
              | (None, events, w') \<Rightarrow> (Returned 0, events @ [Percent 1 1 1], w')))"

subsection \<open>Notions used to state the properties\<close>

text \<open>The module runs among the events, in the order of their emission.\<close>

fun runs :: "event list \<Rightarrow> run_command list" where
  "runs [] = []"
| "runs (Run c # events) = c # runs events"
| "runs (Percent i n s # events) = runs events"

text \<open>The state of the outside after the given module runs, one after the other.\<close>

fun world_after :: "(run_command \<Rightarrow> 'w \<Rightarrow> bool \<times> 'w) \<Rightarrow> run_command list \<Rightarrow> 'w \<Rightarrow> 'w" where
  "world_after run [] w = w"
| "world_after run (c # cs) w = world_after run cs (snd (run c w))"

text \<open>The source column and the method of a module run.\<close>

definition pair_of :: "run_command \<Rightarrow> string \<times> string" where
  "pair_of c = (kw_points_column c, kw_method c)"

text \<open>
  \<open>signals e a b\<close>: the event \<open>e\<close> is a progress signal whose fraction is \<open>a / b\<close>
  (compared by cross multiplication, so that no division is involved).
\<close>

fun signals :: "event \<Rightarrow> int \<Rightarrow> int \<Rightarrow> bool" where
  "signals (Percent n d s) a b = (n * b = a * d)"
| "signals (Run c) a b = False"

subsection \<open>Example inputs\<close>

text \<open>
  A points map \<open>schools\<close> whose table has the columns \<open>cat\<close>, \<open>name\<close>, \<open>pop\<close> and
  \<open>income\<close>, and an areas map \<open>districts\<close>.
\<close>

definition ex_table :: "string \<rightharpoonup> string" where
  "ex_table =
     map_of [(''cat'', ''INTEGER''), (''name'', ''TEXT''), (''pop'', ''integer''),
             (''income'', ''DOUBLE PRECISION'')]"

definition ex_names :: "string list" where
  "ex_names = [''cat'', ''name'', ''pop'', ''income'']"

text \<open>A table without any numeric column.\<close>

definition ex_text_table :: "string \<rightharpoonup> string" where
  "ex_text_table = map_of [(''name'', ''TEXT''), (''street'', ''VARCHAR(80)'')]"

definition ex_text_names :: "string list" where
  "ex_text_names = [''name'', ''street'']"

definition ex_options :: "string \<Rightarrow> string \<Rightarrow> string \<Rightarrow> options" where
  "ex_options points_columns method stats_columns =
     \<lparr> o_points = ''schools'', o_areas = ''districts'', o_type = ''point'',
       o_points_layer = ''1'', o_points_cats = [], o_points_where = [],
       o_areas_layer = ''1'', o_areas_cats = [], o_areas_where = [],
       o_method = method, o_points_columns = points_columns,
       o_count_column = ''num_points'', o_stats_columns = stats_columns \<rparr>"

text \<open>
  Two stand-ins for the module, on an outside world that counts the runs so far: one
  that always succeeds, and one that fails at its run number \<open>k\<close> (counted from 0).
\<close>

definition always_ok :: "run_command \<Rightarrow> nat \<Rightarrow> bool \<times> nat" where
  "always_ok c w = (True, Suc w)"

definition fails_at :: "nat \<Rightarrow> run_command \<Rightarrow> nat \<Rightarrow> bool \<times> nat" where
  "fails_at k c w = (w \<noteq> k, Suc w)"

subsection \<open>Facts about the loop\<close>

lemma length_product_py: "length (product_py xs ys) = length xs * length ys"
  by (induction xs) simp_all

lemma nth_product_py:
  "i < length xs * length ys \<Longrightarrow>
   product_py xs ys ! i = (xs ! (i div length ys), ys ! (i mod length ys))"
proof (induction xs arbitrary: i)
  case Nil
  then show ?case by simp
next
  case (Cons x xs)
  show ?case
  proof (cases "i < length ys")
    case True
    then show ?thesis by (simp add: nth_append)
  next
    case False
    then have ge: "length ys \<le> i" by simp
    with Cons.prems have "i - length ys < length xs * length ys" by simp
    then have "product_py xs ys ! (i - length ys) =
        (xs ! ((i - length ys) div length ys), ys ! ((i - length ys) mod length ys))"
      by (rule Cons.IH)
    moreover from ge have "i div length ys = Suc ((i - length ys) div length ys)"
      using Cons.prems by (cases "length ys = 0") (simp_all add: le_div_geq)
    moreover from ge have "i mod length ys = (i - length ys) mod length ys"
      by (simp add: le_mod_geq)
    ultimately show ?thesis using False by (simp add: nth_append)
  qed
qed

lemma loop_world:
  "loop run mo sn n i pairs w = (out, evs, w') \<Longrightarrow> w' = world_after run (runs evs) w"
proof (induction pairs arbitrary: i w out evs w')
  case Nil
  then show ?case by simp
next
  case (Cons p pairs)
  obtain pc m where p: "p = (pc, m)" by (cases p)
  from Cons.prems show ?case
    unfolding p
    by (auto split: sum.splits prod.splits if_splits simp: Let_def dest: Cons.IH)
qed

lemma loop_pairs:
  "loop run mo sn n i pairs w = (out, evs, w') \<Longrightarrow>
   map pair_of (runs evs) = take (length (runs evs)) pairs"
proof (induction pairs arbitrary: i w out evs w')
  case Nil
  then show ?case by simp
next
  case (Cons p pairs)
  obtain pc m where p: "p = (pc, m)" by (cases p)
  from Cons.prems show ?case
    unfolding p
    by (auto split: sum.splits prod.splits if_splits simp: Let_def pair_of_def command_def dest: Cons.IH)
qed

lemma loop_length_le:
  "loop run mo sn n i pairs w = (out, evs, w') \<Longrightarrow> length (runs evs) \<le> length pairs"
proof (induction pairs arbitrary: i w out evs w')
  case Nil
  then show ?case by simp
next
  case (Cons p pairs)
  obtain pc m where p: "p = (pc, m)" by (cases p)
  from Cons.prems show ?case
    unfolding p
    by (auto split: sum.splits prod.splits if_splits simp: Let_def dest: Cons.IH)
qed

lemma loop_done_length:
  "loop run mo sn n i pairs w = (None, evs, w') \<Longrightarrow> length (runs evs) = length pairs"
proof (induction pairs arbitrary: i w evs w')
  case Nil
  then show ?case by simp
next
  case (Cons p pairs)
  obtain pc m where p: "p = (pc, m)" by (cases p)
  from Cons.prems show ?case
    unfolding p
    by (auto split: sum.splits prod.splits if_splits simp: Let_def dest: Cons.IH)
qed

lemma loop_default_names:
  "loop run mo [] n i pairs w = (out, evs, w') \<Longrightarrow>
   map kw_stats_column (runs evs) =
     take (length (runs evs)) (map (\<lambda>(pc, m). pc @ ''_'' @ m) pairs)"
proof (induction pairs arbitrary: i w out evs w')
  case Nil
  then show ?case by simp
next
  case (Cons p pairs)
  obtain pc m where p: "p = (pc, m)" by (cases p)
  from Cons.prems show ?case
    unfolding p
    by (auto split: sum.splits prod.splits if_splits simp: Let_def stats_column_name_def command_def dest: Cons.IH)
qed

lemma loop_given_names:
  "sn \<noteq> [] \<Longrightarrow> loop run mo sn n i pairs w = (out, evs, w') \<Longrightarrow>
   map kw_stats_column (runs evs) = take (length (runs evs)) (drop i sn)"
proof (induction pairs arbitrary: i w out evs w')
  case Nil
  then show ?case by simp
next
  case (Cons p pairs)
  obtain pc m where p: "p = (pc, m)" by (cases p)
  from Cons.prems show ?case
    unfolding p
    by (auto split: sum.splits prod.splits if_splits simp: Let_def stats_column_name_def command_def Cons_nth_drop_Suc[symmetric] dest!: Cons.IH)
qed

lemma loop_no_index_error:
  "sn = [] \<or> i + length pairs \<le> length sn \<Longrightarrow>
   loop run mo sn n i pairs w = (out, evs, w') \<Longrightarrow> out \<noteq> Some (Failed e)"
proof (induction pairs arbitrary: i w out evs w')
  case Nil
  then show ?case by simp
next
  case (Cons p pairs)
  obtain pc m where p: "p = (pc, m)" by (cases p)
  from Cons.prems(1) have nxt: "sn = [] \<or> Suc i + length pairs \<le> length sn" by auto
  from Cons.prems Cons.IH[OF nxt] show ?case
    unfolding p
    by (auto split: sum.splits prod.splits if_splits simp: Let_def stats_column_name_def)
qed


lemma runs_append: "runs (xs @ ys) = runs xs @ runs ys"
  by (induction xs rule: runs.induct) simp_all

lemma loop_failed_run:
  "loop run mo sn n i pairs w = (out, evs, w') \<Longrightarrow> k < length (runs evs) \<Longrightarrow>
   \<not> fst (run (runs evs ! k) (world_after run (take k (runs evs)) w)) \<Longrightarrow>
   out = Some (ModuleFailed (i + k)) \<and> length (runs evs) = Suc k \<and>
   length evs = 2 * k + 1 \<and> evs ! (2 * k) = Run (runs evs ! k)"
proof (induction pairs arbitrary: i k w out evs w')
  case Nil
  then show ?case by simp
next
  case (Cons p pairs)
  obtain pc m where p: "p = (pc, m)" by (cases p)
  show ?case
  proof (cases k)
    case 0
    with Cons.prems show ?thesis
      unfolding p
      by (auto split: sum.splits prod.splits if_splits simp: Let_def)
  next
    case (Suc k')
    with Cons.prems show ?thesis
      unfolding p
      by (auto split: sum.splits prod.splits if_splits simp: Let_def dest!: Cons.IH)
  qed
qed

lemma loop_succeeded_run:
  "loop run mo sn n i pairs w = (out, evs, w') \<Longrightarrow> k < length (runs evs) \<Longrightarrow>
   fst (run (runs evs ! k) (world_after run (take k (runs evs)) w)) \<Longrightarrow>
   2 * k + 1 < length evs \<and> evs ! (2 * k) = Run (runs evs ! k) \<and>
   evs ! (2 * k + 1) = Percent (int (i + k)) n 1"
proof (induction pairs arbitrary: i k w out evs w')
  case Nil
  then show ?case by simp
next
  case (Cons p pairs)
  obtain pc m where p: "p = (pc, m)" by (cases p)
  show ?case
  proof (cases k)
    case 0
    with Cons.prems show ?thesis
      unfolding p
      by (auto split: sum.splits prod.splits if_splits simp: Let_def)
  next
    case (Suc k')
    with Cons.prems show ?thesis
      unfolding p
      by (auto split: sum.splits prod.splits if_splits simp: Let_def dest!: Cons.IH)
  qed
qed

lemma loop_module_failed:
  "loop run mo sn n i pairs w = (Some (ModuleFailed j), evs, w') \<Longrightarrow>
   \<exists>k<length (runs evs). \<not> fst (run (runs evs ! k) (world_after run (take k (runs evs)) w))"
proof (induction pairs arbitrary: i w evs w')
  case Nil
  then show ?case by simp
next
  case (Cons p pairs)
  obtain pc m where p: "p = (pc, m)" by (cases p)
  obtain name where name: "stats_column_name sn i pc m = Inr name"
    using Cons.prems unfolding p by (auto split: sum.splits)
  define c where "c = command mo m pc name"
  obtain ok w1 where r: "run c w = (ok, w1)" by (cases "run c w")
  show ?case
  proof (cases ok)
    case False
    with Cons.prems name r have "evs = [Run c]"
      unfolding p c_def by (auto simp: Let_def)
    with False r show ?thesis by auto
  next
    case True
    obtain out' evs' w2 where l: "loop run mo sn n (Suc i) pairs w1 = (out', evs', w2)"
      by (cases "loop run mo sn n (Suc i) pairs w1")
    with Cons.prems name r True have e: "evs = Run c # Percent (int i) n 1 # evs'"
      and o: "out' = Some (ModuleFailed j)" and "w2 = w'"
      unfolding p c_def by (auto simp: Let_def)
    from Cons.IH[OF l[unfolded o]] obtain k where
      k: "k < length (runs evs')"
         "\<not> fst (run (runs evs' ! k) (world_after run (take k (runs evs')) w1))"
      by blast
    have "Suc k < length (runs evs)" using k e by simp
    moreover have "\<not> fst (run (runs evs ! Suc k) (world_after run (take (Suc k) (runs evs)) w))"
      using k e r by simp
    ultimately show ?thesis by blast
  qed
qed

lemma prepare_Inr:
  assumes "prepare opts ivc an = Inr (pcs, ms, sn)"
  shows "resolve_columns opts ivc an = Inr pcs"
    and "ms = split_py CHR '','' (o_method opts)"
    and "sn = [] \<or> length sn = length pcs * length ms"
    and "o_stats_columns opts = [] \<Longrightarrow> sn = []"
  using assms
  by (auto simp: prepare_def check_stats_columns_def Let_def
      split: sum.splits if_splits simp flip: of_nat_mult)

lemma loop_not_returned:
  "loop run mo sn n i pairs w = (out, evs, w') \<Longrightarrow> out \<noteq> Some (Returned x)"
proof (induction pairs arbitrary: i w out evs w')
  case Nil
  then show ?case by simp
next
  case (Cons p pairs)
  obtain pc m where p: "p = (pc, m)" by (cases p)
  from Cons.prems show ?case
    unfolding p
    by (auto split: sum.splits prod.splits if_splits simp: Let_def dest: Cons.IH)
qed

lemma main_cases:
  assumes "prepare opts ivc an = Inr (pcs, ms, sn)"
      and "main opts ivc an run w = (out, evs, w')"
  obtains lo le where
    "loop run (modified opts) sn (int (length pcs) * int (length ms)) 0
       (product_py pcs ms) w = (lo, le, w')"
    "(lo = None \<and> out = Returned 0 \<and> evs = le @ [Percent 1 1 1]) \<or>
     (lo = Some out \<and> evs = le)"
proof -
  obtain lo le lw where l:
    "loop run (modified opts) sn (int (length pcs) * int (length ms)) 0
       (product_py pcs ms) w = (lo, le, lw)"
    by (cases "loop run (modified opts) sn (int (length pcs) * int (length ms)) 0
                 (product_py pcs ms) w")
  with assms have "lw = w'"
    and "(lo = None \<and> out = Returned 0 \<and> evs = le @ [Percent 1 1 1]) \<or>
         (lo = Some out \<and> evs = le)"
    by (auto simp: main_def Let_def split: option.splits)
  with l show ?thesis using that by blast
qed

lemma main_runs:
  assumes "prepare opts ivc an = Inr (pcs, ms, sn)"
      and "main opts ivc an run w = (out, evs, w')"
  obtains lo le where
    "loop run (modified opts) sn (int (length pcs) * int (length ms)) 0
       (product_py pcs ms) w = (lo, le, w')"
    "runs le = runs evs"
    "(lo = None \<and> out = Returned 0 \<and> evs = le @ [Percent 1 1 1]) \<or>
     (lo = Some out \<and> evs = le)"
proof -
  from assms obtain lo le where l:
    "loop run (modified opts) sn (int (length pcs) * int (length ms)) 0
       (product_py pcs ms) w = (lo, le, w')"
    "(lo = None \<and> out = Returned 0 \<and> evs = le @ [Percent 1 1 1]) \<or>
     (lo = Some out \<and> evs = le)"
    by (rule main_cases)
  from l(2) have "runs le = runs evs" by (auto simp: runs_append)
  with l show ?thesis using that by blast
qed

subsection \<open>Facts about the column checks\<close>

lemma numeric_columns_filter:
  "set an \<subseteq> dom ivc \<Longrightarrow>
   numeric_columns ivc an =
     Inr (filter (\<lambda>name. case ivc name of None \<Rightarrow> False
                          | Some column_type \<Rightarrow> sql_type_is_numeric column_type) an)"
  by (induction an) auto

lemma check_columns_ok:
  "\<forall>name\<in>set rc. \<exists>t. ivc name = Some t \<and> sql_type_is_numeric t \<Longrightarrow>
   check_columns pn pl ivc rc = Inr ()"
  by (induction rc) auto

lemma check_columns_append:
  "\<forall>name\<in>set good. \<exists>t. ivc name = Some t \<and> sql_type_is_numeric t \<Longrightarrow>
   check_columns pn pl ivc (good @ rest) = check_columns pn pl ivc rest"
  by (induction good) auto

subsection \<open>Unfolding the model on concrete inputs\<close>

lemmas model_defs =
  main_def prepare_def resolve_columns_def check_stats_columns_def stats_column_name_def
  command_def modified_def sql_type_is_numeric_def upper_def upper_char_def
  SQL_NUMERIC_TYPES_def SQL_INT_TYPES_def SQL_FLOAT_TYPES_def pair_of_def
  ex_options_def ex_table_def ex_names_def ex_text_table_def ex_text_names_def
  always_ok_def fails_at_def

section \<open>The properties\<close>

text \<open>
  In the statements below, \<open>prepare \<dots> = Inr (pcs, ms, sn)\<close> says that the run passed
  every check before the loop, with the resolved columns \<open>pcs\<close>, the methods \<open>ms\<close> and
  the given names \<open>sn\<close> (empty when none were given); \<open>runs evs\<close> are the module runs the
  program issued, in order, so that \<open>runs evs ! i\<close> is the run for job \<open>i\<close>; and
  \<open>run (runs evs ! k) (world_after run (take k (runs evs)) w)\<close> is what the module
  answered to run \<open>k\<close>, in the state the runs before it had left.
\<close>

subsection \<open>C1: the jobs come in column-major order\<close>

text \<open>
  Claim C1. The pairs of a column and a method are enumerated column by column: there are
  \<open>|columns| * |methods|\<close> of them, the pair at position \<open>i\<close> has the column at
  \<open>i div |methods|\<close> and the method at \<open>i mod |methods|\<close>, and two columns with two
  methods give \<open>(c1,m1), (c1,m2), (c2,m1), (c2,m2)\<close>. The module runs a program issues
  follow this order: run \<open>i\<close> is for the pair at position \<open>i\<close>, and a program that
  returns 0 has issued a run for every pair.
\<close>

theorem C1_column_major_order:
  assumes "prepare opts ivc an = Inr (pcs, ms, sn)"
      and "main opts ivc an run w = (out, evs, w')"
  shows "length (product_py pcs ms) = length pcs * length ms \<and>
         (\<forall>i<length pcs * length ms.
            product_py pcs ms ! i = (pcs ! (i div length ms), ms ! (i mod length ms))) \<and>
         product_py [ca, cb] [ma, mb] = [(ca, ma), (ca, mb), (cb, ma), (cb, mb)] \<and>
         length (runs evs) \<le> length pcs * length ms \<and>
         (\<forall>i<length (runs evs).
            pair_of (runs evs ! i) = (pcs ! (i div length ms), ms ! (i mod length ms))) \<and>
         (out = Returned 0 \<longrightarrow> length (runs evs) = length pcs * length ms)"
proof -
  from assms obtain lo le where
    l: "loop run (modified opts) sn (int (length pcs) * int (length ms)) 0
          (product_py pcs ms) w = (lo, le, w')"
    and r: "runs le = runs evs"
    and c: "(lo = None \<and> out = Returned 0 \<and> evs = le @ [Percent 1 1 1]) \<or>
            (lo = Some out \<and> evs = le)"
    by (rule main_runs)
  have len: "length (runs evs) \<le> length pcs * length ms"
    using loop_length_le[OF l] r by (simp add: length_product_py)
  have pre: "map pair_of (runs evs) = take (length (runs evs)) (product_py pcs ms)"
    using loop_pairs[OF l] r by simp
  have nth: "pair_of (runs evs ! i) = (pcs ! (i div length ms), ms ! (i mod length ms))"
    if "i < length (runs evs)" for i
  proof -
    have "pair_of (runs evs ! i) = map pair_of (runs evs) ! i"
      using that by simp
    also have "\<dots> = product_py pcs ms ! i"
      using that by (simp add: pre)
    also have "\<dots> = (pcs ! (i div length ms), ms ! (i mod length ms))"
      using that len by (intro nth_product_py) simp
    finally show ?thesis .
  qed
  have full: "length (runs evs) = length pcs * length ms" if "out = Returned 0"
  proof -
    from c that loop_not_returned[OF l] have "lo = None" by auto
    with l have "length (runs le) = length (product_py pcs ms)"
      by (auto dest: loop_done_length)
    then show ?thesis using r by (simp add: length_product_py)
  qed
  show ?thesis
    using len nth full by (simp add: length_product_py nth_product_py)
qed

theorem C1_column_major_order_witness:
  "prepare (ex_options ''pop,income'' ''sum,average'' []) ex_table ex_names =
     Inr ([''pop'', ''income''], [''sum'', ''average''], []) \<and>
   fst (main (ex_options ''pop,income'' ''sum,average'' []) ex_table ex_names always_ok 0) =
     Returned 0 \<and>
   length (runs (fst (snd (main (ex_options ''pop,income'' ''sum,average'' [])
                             ex_table ex_names always_ok 0)))) = 4 \<and>
   pair_of (runs (fst (snd (main (ex_options ''pop,income'' ''sum,average'' [])
                             ex_table ex_names always_ok 0))) ! 2) = (''income'', ''sum'')"
proof -
  let ?m = "main (ex_options ''pop,income'' ''sum,average'' []) ex_table ex_names always_ok 0"
  have p: "prepare (ex_options ''pop,income'' ''sum,average'' []) ex_table ex_names =
     Inr ([''pop'', ''income''], [''sum'', ''average''], [])"
    by (simp add: model_defs)
  have m: "?m = (fst ?m, fst (snd ?m), snd (snd ?m))"
    by simp
  have r: "fst ?m = Returned 0"
    by (simp add: model_defs)
  note t = C1_column_major_order[OF p m, where ca = "''c1''" and cb = "''c2''"
      and ma = "''m1''" and mb = "''m2''"]
  from t r have len: "length (runs (fst (snd ?m))) = 4"
    by simp
  from t have "\<forall>i<length (runs (fst (snd ?m))).
      pair_of (runs (fst (snd ?m)) ! i) =
        ([''pop'', ''income''] ! (i div length [''sum'', ''average'']),
         [''sum'', ''average''] ! (i mod length [''sum'', ''average'']))"
    by blast
  with len have "pair_of (runs (fst (snd ?m)) ! 2) =
        ([''pop'', ''income''] ! (2 div length [''sum'', ''average'']),
         [''sum'', ''average''] ! (2 mod length [''sum'', ''average'']))"
    by simp
  then have "pair_of (runs (fst (snd ?m)) ! 2) = (''income'', ''sum'')"
    by (simp add: numeral_2_eq_2)
  with p r len show ?thesis
    by simp
qed

subsection \<open>C2: the number of given names must match\<close>

text \<open>
  Claim C2. When the columns were resolved, names for the new columns are given, and
  their number differs from \<open>|columns| * |methods|\<close>, the program ends with the fatal
  message about the count, which carries the number of names given, the two factors and
  the number needed. No event was emitted: no module run was issued, and the outside is
  as it was.
\<close>

theorem C2_names_count_mismatch:
  assumes "resolve_columns opts ivc an = Inr pcs"
      and "o_stats_columns opts \<noteq> []"
      and "ms = split_py CHR '','' (o_method opts)"
      and "sn = split_py CHR '','' (o_stats_columns opts)"
      and "length sn \<noteq> length pcs * length ms"
  shows "main opts ivc an run w =
           (Failed (Fatal (NamesCount (int (length sn)) (int (length pcs)) (int (length ms))
                             (int (length pcs) * int (length ms)))), [], w)"
proof -
  from assms(5) have "int (length sn) \<noteq> int (length pcs) * int (length ms)"
    by (simp flip: of_nat_mult)
  with assms(1-4) show ?thesis
    by (simp add: main_def prepare_def check_stats_columns_def Let_def)
qed

theorem C2_names_count_mismatch_witness:
  "resolve_columns (ex_options ''pop,income'' ''sum,average'' ''a,b,c'') ex_table ex_names =
     Inr [''pop'', ''income''] \<and>
   split_py CHR '','' ''a,b,c'' = [''a'', ''b'', ''c''] \<and>
   main (ex_options ''pop,income'' ''sum,average'' ''a,b,c'') ex_table ex_names always_ok 0 =
     (Failed (Fatal (NamesCount 3 2 2 4)), [], 0)"
proof -
  let ?o = "ex_options ''pop,income'' ''sum,average'' ''a,b,c''"
  have r: "resolve_columns ?o ex_table ex_names = Inr [''pop'', ''income'']"
    by (simp add: model_defs)
  have s: "o_stats_columns ?o \<noteq> []"
    by (simp add: ex_options_def)
  have ms: "[''sum'', ''average''] = split_py CHR '','' (o_method ?o)"
    by (simp add: ex_options_def)
  have sn: "[''a'', ''b'', ''c''] = split_py CHR '','' (o_stats_columns ?o)"
    by (simp add: ex_options_def)
  have n: "length [''a'', ''b'', ''c''] \<noteq> length [''pop'', ''income''] * length [''sum'', ''average'']"
    by simp
  from C2_names_count_mismatch[OF r s ms sn n, of always_ok 0] r show ?thesis
    by simp
qed

subsection \<open>C3: the given names must be unique\<close>

text \<open>
  Against claim C3 as it is stated: the count of the names is checked before their
  uniqueness. One column, one method and
  the names \<open>a,a\<close>: the list has a duplicate, and the program ends with the message
  about the count (2 given, 1 needed), not with the one about uniqueness.
\<close>


theorem C3_duplicate_with_wrong_count_counterexample:
  "resolve_columns (ex_options ''pop'' ''sum'' ''a,a'') ex_table ex_names = Inr [''pop''] \<and>
   split_py CHR '','' (o_stats_columns (ex_options ''pop'' ''sum'' ''a,a'')) = [''a'', ''a''] \<and>
   card (set [''a'', ''a'']) < length [''a'', ''a''] \<and>
   main (ex_options ''pop'' ''sum'' ''a,a'') ex_table ex_names always_ok 0 =
     (Failed (Fatal (NamesCount 2 1 1 1)), [], 0) \<and>
   fst (main (ex_options ''pop'' ''sum'' ''a,a'') ex_table ex_names always_ok 0) \<noteq>
     Failed (Fatal (NamesNotUnique 2 1))"
  by (simp add: model_defs)

text \<open>
  Claim C3, amended. When the columns were resolved, the number of given names is
  \<open>|columns| * |methods|\<close>, and the list of names has more entries than distinct names,
  the program ends with the fatal message about uniqueness, which carries the number of
  names given and the number of distinct names. No event was emitted: no module run was
  issued, and the outside is as it was.
\<close>

theorem C3_duplicate_names:
  assumes "resolve_columns opts ivc an = Inr pcs"
      and "o_stats_columns opts \<noteq> []"
      and "ms = split_py CHR '','' (o_method opts)"
      and "sn = split_py CHR '','' (o_stats_columns opts)"
      and "length sn = length pcs * length ms"
      and "card (set sn) < length sn"
  shows "main opts ivc an run w =
           (Failed (Fatal (NamesNotUnique (int (length sn)) (int (card (set sn))))), [], w)"
proof -
  from assms(5) have "int (length sn) = int (length pcs) * int (length ms)"
    by (simp flip: of_nat_mult)
  moreover from assms(6) have "int (length sn) \<noteq> int (card (set sn))"
    by simp
  ultimately show ?thesis using assms(1-4)
    by (simp add: main_def prepare_def check_stats_columns_def Let_def)
qed

theorem C3_duplicate_names_witness:
  "resolve_columns (ex_options ''pop'' ''sum,average'' ''a,a'') ex_table ex_names =
     Inr [''pop''] \<and>
   split_py CHR '','' ''a,a'' = [''a'', ''a''] \<and>
   main (ex_options ''pop'' ''sum,average'' ''a,a'') ex_table ex_names always_ok 0 =
     (Failed (Fatal (NamesNotUnique 2 1)), [], 0)"
proof -
  let ?o = "ex_options ''pop'' ''sum,average'' ''a,a''"
  have r: "resolve_columns ?o ex_table ex_names = Inr [''pop'']"
    by (simp add: model_defs)
  have s: "o_stats_columns ?o \<noteq> []"
    by (simp add: ex_options_def)
  have ms: "[''sum'', ''average''] = split_py CHR '','' (o_method ?o)"
    by (simp add: ex_options_def)
  have sn: "[''a'', ''a''] = split_py CHR '','' (o_stats_columns ?o)"
    by (simp add: ex_options_def)
  have n: "length [''a'', ''a''] = length [''pop''] * length [''sum'', ''average'']"
    by simp
  have d: "card (set [''a'', ''a'']) < length [''a'', ''a'']"
    by simp
  from C3_duplicate_names[OF r s ms sn n d, of always_ok 0] r show ?thesis
    by simp
qed

subsection \<open>C4: the generated names\<close>

text \<open>
  Claim C4. When no names are given, the new column of every module run is named after
  the run's own source column and method, joined by an underscore; the names follow the
  order of the enumeration, and a program that returns 0 has used the name of every pair.
\<close>

theorem C4_default_names:
  assumes "prepare opts ivc an = Inr (pcs, ms, sn)"
      and "o_stats_columns opts = []"
      and "main opts ivc an run w = (out, evs, w')"
  shows "map kw_stats_column (runs evs) =
           take (length (runs evs)) (map (\<lambda>(pc, m). pc @ ''_'' @ m) (product_py pcs ms)) \<and>
         (\<forall>c\<in>set (runs evs). kw_stats_column c = kw_points_column c @ ''_'' @ kw_method c) \<and>
         (out = Returned 0 \<longrightarrow>
            map kw_stats_column (runs evs) =
              map (\<lambda>(pc, m). pc @ ''_'' @ m) (product_py pcs ms))"
proof -
  from assms(1,3) obtain lo le where
    l: "loop run (modified opts) sn (int (length pcs) * int (length ms)) 0
          (product_py pcs ms) w = (lo, le, w')"
    and r: "runs le = runs evs"
    and c: "(lo = None \<and> out = Returned 0 \<and> evs = le @ [Percent 1 1 1]) \<or>
            (lo = Some out \<and> evs = le)"
    by (rule main_runs)
  from assms(1,2) have sn: "sn = []"
    by (rule prepare_Inr(4))
  have names: "map kw_stats_column (runs evs) =
      take (length (runs evs)) (map (\<lambda>(pc, m). pc @ ''_'' @ m) (product_py pcs ms))"
    using loop_default_names[OF l[unfolded sn]] r by simp
  have pairs: "map pair_of (runs evs) = take (length (runs evs)) (product_py pcs ms)"
    using loop_pairs[OF l] r by simp
  have each: "kw_stats_column c = kw_points_column c @ ''_'' @ kw_method c"
    if "c \<in> set (runs evs)" for c
  proof -
    from that obtain i where i: "i < length (runs evs)" "runs evs ! i = c"
      by (auto simp: in_set_conv_nth)
    have le: "length (runs evs) \<le> length (product_py pcs ms)"
      using loop_length_le[OF l] r by simp
    have "kw_stats_column c = map kw_stats_column (runs evs) ! i"
      using i by simp
    also have "\<dots> = (\<lambda>(pc, m). pc @ ''_'' @ m) (product_py pcs ms ! i)"
      using i le by (simp add: names)
    also have "product_py pcs ms ! i = map pair_of (runs evs) ! i"
      using i by (simp add: pairs)
    also have "\<dots> = pair_of c"
      using i by simp
    finally show ?thesis by (simp add: pair_of_def)
  qed
  have full: "map kw_stats_column (runs evs) =
      map (\<lambda>(pc, m). pc @ ''_'' @ m) (product_py pcs ms)" if "out = Returned 0"
  proof -
    from c that loop_not_returned[OF l] have "lo = None" by auto
    with l have "length (runs le) = length (product_py pcs ms)"
      by (auto dest: loop_done_length)
    with names r show ?thesis by simp
  qed
  from names each full show ?thesis by blast
qed

theorem C4_default_names_witness:
  "prepare (ex_options ''pop,income'' ''sum,average'' []) ex_table ex_names =
     Inr ([''pop'', ''income''], [''sum'', ''average''], []) \<and>
   o_stats_columns (ex_options ''pop,income'' ''sum,average'' []) = [] \<and>
   map kw_stats_column
     (runs (fst (snd (main (ex_options ''pop,income'' ''sum,average'' [])
                        ex_table ex_names always_ok 0)))) =
     [''pop_sum'', ''pop_average'', ''income_sum'', ''income_average'']"
proof -
  let ?o = "ex_options ''pop,income'' ''sum,average'' []"
  let ?m = "main ?o ex_table ex_names always_ok 0"
  have p: "prepare ?o ex_table ex_names =
     Inr ([''pop'', ''income''], [''sum'', ''average''], [])"
    by (simp add: model_defs)
  have s: "o_stats_columns ?o = []"
    by (simp add: ex_options_def)
  have m: "?m = (fst ?m, fst (snd ?m), snd (snd ?m))"
    by simp
  have r: "fst ?m = Returned 0"
    by (simp add: model_defs)
  from C4_default_names[OF p s m] r
  have "map kw_stats_column (runs (fst (snd ?m))) =
      map (\<lambda>(pc, m). pc @ ''_'' @ m) (product_py [''pop'', ''income''] [''sum'', ''average''])"
    by blast
  with p s show ?thesis by simp
qed

subsection \<open>C5: all numeric columns by default\<close>

text \<open>
  Claim C5. When no columns are requested and the dictionary of the table has an entry
  for every name of the ordered list, the resolved columns are exactly the names of the
  ordered list whose SQL type is numeric, in the order of that list.
\<close>

theorem C5_default_numeric_columns:
  assumes "o_points_columns opts = []"
      and "set an \<subseteq> dom ivc"
  shows "resolve_columns opts ivc an =
           Inr (filter (\<lambda>name. case ivc name of None \<Rightarrow> False
                                | Some column_type \<Rightarrow> sql_type_is_numeric column_type) an)"
  using assms by (simp add: resolve_columns_def numeric_columns_filter)

theorem C5_default_numeric_columns_witness:
  "o_points_columns (ex_options [] ''sum'' []) = [] \<and>
   set ex_names \<subseteq> dom ex_table \<and>
   resolve_columns (ex_options [] ''sum'' []) ex_table ex_names =
     Inr [''cat'', ''pop'', ''income'']"
proof -
  have e: "o_points_columns (ex_options [] ''sum'' []) = []"
    by (simp add: ex_options_def)
  have d: "set ex_names \<subseteq> dom ex_table"
    by (simp add: ex_names_def ex_table_def)
  from C5_default_numeric_columns[OF e d] e d show ?thesis
    by (simp add: model_defs)
qed

subsection \<open>C6: the requested columns\<close>

text \<open>
  Against claim C6 as it is stated: the requested names are checked one after the other,
  and the first name that fails decides the message. With \<open>name,zz\<close> requested, where \<open>name\<close> is of type TEXT and
  \<open>zz\<close> is not in the table, the program ends with the message that \<open>name\<close> is not
  numeric, although a requested name is absent from the table.
\<close>


theorem C6_absent_after_text_counterexample:
  "split_py CHR '','' (o_points_columns (ex_options ''name,zz'' ''sum'' [])) =
     [''name'', ''zz''] \<and>
   ex_table ''zz'' = None \<and>
   resolve_columns (ex_options ''name,zz'' ''sum'' []) ex_table ex_names =
     Inl (Fatal (NotNumeric ''name'' ''schools'' ''TEXT'')) \<and>
   resolve_columns (ex_options ''name,zz'' ''sum'' []) ex_table ex_names \<noteq>
     Inl (Fatal (ColumnNotFound ''zz'' ''schools'' ''1''))"
  by (simp add: model_defs)

text \<open>
  Claim C6, amended. For requested columns \<open>rc\<close>: when every requested name is in the
  table with a numeric type, the resolved columns are \<open>rc\<close>, in the requested order.
  Otherwise the first requested name that is absent or not numeric decides: when it is
  absent from the table, the program ends with the message that the column was not found
  (with the name, the map and the layer); when it is in the table with a type that is not
  numeric, the program ends with the message that the column is not numeric (with the
  name, the map and the type).
\<close>

theorem C6_requested_columns:
  assumes "o_points_columns opts \<noteq> []"
      and "rc = split_py CHR '','' (o_points_columns opts)"
  shows "((\<forall>name\<in>set rc. \<exists>t. ivc name = Some t \<and> sql_type_is_numeric t) \<longrightarrow>
            resolve_columns opts ivc an = Inr rc) \<and>
         (rc = good @ name # rest \<and>
          (\<forall>g\<in>set good. \<exists>t. ivc g = Some t \<and> sql_type_is_numeric t) \<and>
          ivc name = None \<longrightarrow>
            resolve_columns opts ivc an =
              Inl (Fatal (ColumnNotFound name (o_points opts) (o_points_layer opts)))) \<and>
         (rc = good @ name # rest \<and>
          (\<forall>g\<in>set good. \<exists>t. ivc g = Some t \<and> sql_type_is_numeric t) \<and>
          ivc name = Some column_type \<and> \<not> sql_type_is_numeric column_type \<longrightarrow>
            resolve_columns opts ivc an =
              Inl (Fatal (NotNumeric name (o_points opts) column_type)))"
proof -
  have ne: "rc \<noteq> []"
    unfolding assms(2) by (cases "o_points_columns opts") (auto split: list.splits)
  have res: "resolve_columns opts ivc an =
      (case check_columns (o_points opts) (o_points_layer opts) ivc rc of
         Inl e \<Rightarrow> Inl e | Inr _ \<Rightarrow> Inr rc)"
    using assms ne by (simp add: resolve_columns_def Let_def split: sum.splits)
  show ?thesis
    by (auto simp: res check_columns_ok check_columns_append)
qed

theorem C6_requested_columns_witness:
  "o_points_columns (ex_options ''income,pop'' ''sum'' []) \<noteq> [] \<and>
   resolve_columns (ex_options ''income,pop'' ''sum'' []) ex_table ex_names =
     Inr [''income'', ''pop''] \<and>
   resolve_columns (ex_options ''income,zz,name'' ''sum'' []) ex_table ex_names =
     Inl (Fatal (ColumnNotFound ''zz'' ''schools'' ''1'')) \<and>
   resolve_columns (ex_options ''income,name,zz'' ''sum'' []) ex_table ex_names =
     Inl (Fatal (NotNumeric ''name'' ''schools'' ''TEXT''))"
proof -
  have a: "o_points_columns (ex_options ''income,pop'' ''sum'' []) \<noteq> []"
    and a': "[''income'', ''pop''] =
      split_py CHR '','' (o_points_columns (ex_options ''income,pop'' ''sum'' []))"
    by (simp_all add: ex_options_def)
  have b: "o_points_columns (ex_options ''income,zz,name'' ''sum'' []) \<noteq> []"
    and b': "[''income'', ''zz'', ''name''] =
      split_py CHR '','' (o_points_columns (ex_options ''income,zz,name'' ''sum'' []))"
    by (simp_all add: ex_options_def)
  have c: "o_points_columns (ex_options ''income,name,zz'' ''sum'' []) \<noteq> []"
    and c': "[''income'', ''name'', ''zz''] =
      split_py CHR '','' (o_points_columns (ex_options ''income,name,zz'' ''sum'' []))"
    by (simp_all add: ex_options_def)
  have num: "\<forall>name\<in>set [''income'', ''pop''].
      \<exists>t. ex_table name = Some t \<and> sql_type_is_numeric t"
    by (simp add: model_defs)
  have good: "\<forall>g\<in>set [''income'']. \<exists>t. ex_table g = Some t \<and> sql_type_is_numeric t"
    by (simp add: model_defs)
  have zz: "ex_table ''zz'' = None"
    by (simp add: ex_table_def)
  have nm: "ex_table ''name'' = Some ''TEXT'' \<and> \<not> sql_type_is_numeric ''TEXT''"
    by (simp add: model_defs)
  have 1: "resolve_columns (ex_options ''income,pop'' ''sum'' []) ex_table ex_names =
     Inr [''income'', ''pop'']"
    using C6_requested_columns[OF a a', of ex_table ex_names] num by blast
  have 2: "resolve_columns (ex_options ''income,zz,name'' ''sum'' []) ex_table ex_names =
     Inl (Fatal (ColumnNotFound ''zz'' ''schools'' ''1''))"
    using C6_requested_columns[OF b b', of ex_table ex_names "[''income'']" "''zz''"
        "[''name'']"] good zz
    by (simp add: ex_options_def)
  have 3: "resolve_columns (ex_options ''income,name,zz'' ''sum'' []) ex_table ex_names =
     Inl (Fatal (NotNumeric ''name'' ''schools'' ''TEXT''))"
    using C6_requested_columns[OF c c', of ex_table ex_names "[''income'']" "''name''"
        "[''zz'']" "''TEXT''"] good nm
    by (simp add: ex_options_def)
  from a 1 2 3 show ?thesis by blast
qed

subsection \<open>C7: the first failing module run ends the program\<close>

text \<open>
  Claim C7. When the module fails at run \<open>k\<close>, the program ends there: exactly the runs
  for the jobs \<open>0\<close> to \<open>k\<close> were issued, in the order of the enumeration, the failing run
  is the last event (no run and no progress signal follows it), and the outside is left
  as these \<open>k + 1\<close> runs made it (nothing is run again, nothing is undone).
\<close>

theorem C7_fail_fast:
  assumes "prepare opts ivc an = Inr (pcs, ms, sn)"
      and "main opts ivc an run w = (out, evs, w')"
      and "k < length (runs evs)"
      and "\<not> fst (run (runs evs ! k) (world_after run (take k (runs evs)) w))"
  shows "out = ModuleFailed k \<and>
         k < length pcs * length ms \<and>
         length (runs evs) = Suc k \<and>
         map pair_of (runs evs) = take (Suc k) (product_py pcs ms) \<and>
         length evs = 2 * k + 1 \<and>
         last evs = Run (runs evs ! k) \<and>
         w' = world_after run (runs evs) w"
proof -
  from assms(1,2) obtain lo le where
    l: "loop run (modified opts) sn (int (length pcs) * int (length ms)) 0
          (product_py pcs ms) w = (lo, le, w')"
    and r: "runs le = runs evs"
    and c: "(lo = None \<and> out = Returned 0 \<and> evs = le @ [Percent 1 1 1]) \<or>
            (lo = Some out \<and> evs = le)"
    by (rule main_runs)
  from assms(3,4) r have k: "k < length (runs le)"
    and f: "\<not> fst (run (runs le ! k) (world_after run (take k (runs le)) w))"
    by simp_all
  from loop_failed_run[OF l k f]
  have lo: "lo = Some (ModuleFailed k)" and n: "length (runs le) = Suc k"
    and len: "length le = 2 * k + 1" and at: "le ! (2 * k) = Run (runs le ! k)"
    by simp_all
  from c lo have out: "out = ModuleFailed k" and evs: "evs = le"
    by auto
  have "length (runs le) \<le> length (product_py pcs ms)"
    using l by (rule loop_length_le)
  with n have bound: "k < length pcs * length ms"
    by (simp add: length_product_py)
  have pairs: "map pair_of (runs le) = take (Suc k) (product_py pcs ms)"
    using loop_pairs[OF l] n by simp
  have "le \<noteq> []" using len by auto
  then have "last le = le ! (2 * k)"
    using len by (simp add: last_conv_nth)
  with at have lst: "last le = Run (runs le ! k)"
    by simp
  have world: "w' = world_after run (runs le) w"
    using l by (rule loop_world)
  show ?thesis
    unfolding evs using out bound n pairs len lst world by (intro conjI)
qed

theorem C7_fail_fast_witness:
  "prepare (ex_options ''pop,income'' ''sum,average'' ''a,b,c,d'') ex_table ex_names =
     Inr ([''pop'', ''income''], [''sum'', ''average''], [''a'', ''b'', ''c'', ''d'']) \<and>
   \<not> fst (fails_at 2
     (runs (fst (snd (main (ex_options ''pop,income'' ''sum,average'' ''a,b,c,d'')
                        ex_table ex_names (fails_at 2) 0))) ! 2)
     (world_after (fails_at 2)
        (take 2 (runs (fst (snd (main (ex_options ''pop,income'' ''sum,average'' ''a,b,c,d'')
                                   ex_table ex_names (fails_at 2) 0))))) 0)) \<and>
   fst (main (ex_options ''pop,income'' ''sum,average'' ''a,b,c,d'') ex_table ex_names
          (fails_at 2) 0) = ModuleFailed 2 \<and>
   map pair_of
     (runs (fst (snd (main (ex_options ''pop,income'' ''sum,average'' ''a,b,c,d'')
                        ex_table ex_names (fails_at 2) 0)))) =
     [(''pop'', ''sum''), (''pop'', ''average''), (''income'', ''sum'')] \<and>
   snd (snd (main (ex_options ''pop,income'' ''sum,average'' ''a,b,c,d'') ex_table ex_names
               (fails_at 2) 0)) = 3"
proof -
  let ?o = "ex_options ''pop,income'' ''sum,average'' ''a,b,c,d''"
  let ?m = "main ?o ex_table ex_names (fails_at 2) 0"
  have p: "prepare ?o ex_table ex_names =
     Inr ([''pop'', ''income''], [''sum'', ''average''], [''a'', ''b'', ''c'', ''d''])"
    by (simp add: model_defs)
  have m: "?m = (fst ?m, fst (snd ?m), snd (snd ?m))"
    by simp
  have k: "2 < length (runs (fst (snd ?m)))"
    by (simp add: model_defs)
  have f: "\<not> fst (fails_at 2 (runs (fst (snd ?m)) ! 2)
              (world_after (fails_at 2) (take 2 (runs (fst (snd ?m)))) 0))"
    by (simp add: model_defs)
  note t = C7_fail_fast[OF p m k f]
  from t have o: "fst ?m = ModuleFailed 2"
    by blast
  from t have "map pair_of (runs (fst (snd ?m))) =
      take (Suc 2) (product_py [''pop'', ''income''] [''sum'', ''average''])"
    by blast
  then have q: "map pair_of (runs (fst (snd ?m))) =
      [(''pop'', ''sum''), (''pop'', ''average''), (''income'', ''sum'')]"
    by (simp add: numeral_3_eq_3)
  from t have "snd (snd ?m) = world_after (fails_at 2) (runs (fst (snd ?m))) 0"
    by blast
  then have w: "snd (snd ?m) = 3"
    by (simp add: model_defs)
  from p f o q w show ?thesis
    by blast
qed

subsection \<open>C8: the progress signal after a module run\<close>

text \<open>
  Against claim C8 as it is stated: the signal after run \<open>i\<close> is \<^verbatim>\<open>gs.percent(i, num_new_columns, 1)\<close>, with \<open>i\<close> counted
  from 0. One column and two methods: between the first and the second module run the
  only event is \<open>Percent 0 2 1\<close>, whose fraction is \<open>0 / 2\<close> and not \<open>(0 + 1) / 2\<close>.
\<close>


theorem C8_progress_lags_counterexample:
  "fst (main (ex_options ''pop'' ''sum,average'' []) ex_table ex_names always_ok 0) =
     Returned 0 \<and>
   fst (always_ok
     (runs (fst (snd (main (ex_options ''pop'' ''sum,average'' [])
                        ex_table ex_names always_ok 0))) ! 0) 0) \<and>
   fst (snd (main (ex_options ''pop'' ''sum,average'' []) ex_table ex_names always_ok 0)) ! 0 =
     Run (runs (fst (snd (main (ex_options ''pop'' ''sum,average'' [])
                           ex_table ex_names always_ok 0))) ! 0) \<and>
   fst (snd (main (ex_options ''pop'' ''sum,average'' []) ex_table ex_names always_ok 0)) ! 1 =
     Percent 0 2 1 \<and>
   fst (snd (main (ex_options ''pop'' ''sum,average'' []) ex_table ex_names always_ok 0)) ! 2 =
     Run (runs (fst (snd (main (ex_options ''pop'' ''sum,average'' [])
                           ex_table ex_names always_ok 0))) ! 1) \<and>
   \<not> signals
       (fst (snd (main (ex_options ''pop'' ''sum,average'' []) ex_table ex_names
                    always_ok 0)) ! 1)
       (0 + 1) 2"
  by (simp add: model_defs)

text \<open>
  Claim C8, amended. After the module run for job \<open>i\<close> succeeds, the next event is the
  progress signal \<open>Percent i N 1\<close>, whose fraction is \<open>i / N\<close>, where \<open>N\<close> is
  \<open>|columns| * |methods|\<close>.
\<close>

theorem C8_progress_after_success:
  assumes "prepare opts ivc an = Inr (pcs, ms, sn)"
      and "main opts ivc an run w = (out, evs, w')"
      and "k < length (runs evs)"
      and "fst (run (runs evs ! k) (world_after run (take k (runs evs)) w))"
  shows "2 * k + 1 < length evs \<and>
         evs ! (2 * k) = Run (runs evs ! k) \<and>
         evs ! (2 * k + 1) = Percent (int k) (int (length pcs) * int (length ms)) 1 \<and>
         signals (evs ! (2 * k + 1)) (int k) (int (length pcs) * int (length ms))"
proof -
  from assms(1,2) obtain lo le where
    l: "loop run (modified opts) sn (int (length pcs) * int (length ms)) 0
          (product_py pcs ms) w = (lo, le, w')"
    and r: "runs le = runs evs"
    and c: "(lo = None \<and> out = Returned 0 \<and> evs = le @ [Percent 1 1 1]) \<or>
            (lo = Some out \<and> evs = le)"
    by (rule main_runs)
  from assms(3,4) r have k: "k < length (runs le)"
    and f: "fst (run (runs le ! k) (world_after run (take k (runs le)) w))"
    by simp_all
  from loop_succeeded_run[OF l k f]
  have len: "2 * k + 1 < length le" and a: "le ! (2 * k) = Run (runs le ! k)"
    and b: "le ! (2 * k + 1) = Percent (int k) (int (length pcs) * int (length ms)) 1"
    by simp_all
  from c have "evs = le @ [Percent 1 1 1] \<or> evs = le"
    by auto
  with len a b have "2 * k + 1 < length evs \<and> evs ! (2 * k) = le ! (2 * k) \<and>
      evs ! (2 * k + 1) = le ! (2 * k + 1)"
    by (auto simp: nth_append)
  with a b r show ?thesis
    by simp
qed

theorem C8_progress_after_success_witness:
  "prepare (ex_options ''pop'' ''sum,average'' []) ex_table ex_names =
     Inr ([''pop''], [''sum'', ''average''], []) \<and>
   fst (always_ok
     (runs (fst (snd (main (ex_options ''pop'' ''sum,average'' [])
                        ex_table ex_names always_ok 0))) ! 1)
     (world_after always_ok
        (take 1 (runs (fst (snd (main (ex_options ''pop'' ''sum,average'' [])
                                   ex_table ex_names always_ok 0))))) 0)) \<and>
   fst (snd (main (ex_options ''pop'' ''sum,average'' []) ex_table ex_names always_ok 0)) ! 3 =
     Percent 1 2 1"
proof -
  let ?o = "ex_options ''pop'' ''sum,average'' []"
  let ?m = "main ?o ex_table ex_names always_ok 0"
  have p: "prepare ?o ex_table ex_names = Inr ([''pop''], [''sum'', ''average''], [])"
    by (simp add: model_defs)
  have m: "?m = (fst ?m, fst (snd ?m), snd (snd ?m))"
    by simp
  have k: "1 < length (runs (fst (snd ?m)))"
    by (simp add: model_defs)
  have f: "fst (always_ok (runs (fst (snd ?m)) ! 1)
              (world_after always_ok (take 1 (runs (fst (snd ?m)))) 0))"
    by (simp add: always_ok_def)
  from C8_progress_after_success[OF p m k f]
  have "fst (snd ?m) ! (2 * 1 + 1) =
      Percent (int 1) (int (length [''pop'']) * int (length [''sum'', ''average''])) 1"
    by blast
  then have "fst (snd ?m) ! 3 = Percent 1 2 1"
    by simp
  with p f show ?thesis
    by blast
qed

subsection \<open>C9: the final progress signal\<close>

text \<open>
  Claim C9. When the run passed every check and every module run issued succeeded, the
  program returns 0, has issued a run for every job, and its last event is the signal
  \<open>Percent 1 1 1\<close> (100 percent). With no job at all, that signal is the only event.
\<close>

theorem C9_final_signal:
  assumes "prepare opts ivc an = Inr (pcs, ms, sn)"
      and "main opts ivc an run w = (out, evs, w')"
      and "\<forall>k<length (runs evs).
             fst (run (runs evs ! k) (world_after run (take k (runs evs)) w))"
  shows "out = Returned 0 \<and>
         length (runs evs) = length pcs * length ms \<and>
         evs \<noteq> [] \<and> last evs = Percent 1 1 1 \<and> signals (last evs) 1 1 \<and>
         (length pcs * length ms = 0 \<longrightarrow> evs = [Percent 1 1 1])"
proof -
  from assms(1,2) obtain lo le where
    l: "loop run (modified opts) sn (int (length pcs) * int (length ms)) 0
          (product_py pcs ms) w = (lo, le, w')"
    and r: "runs le = runs evs"
    and c: "(lo = None \<and> out = Returned 0 \<and> evs = le @ [Percent 1 1 1]) \<or>
            (lo = Some out \<and> evs = le)"
    by (rule main_runs)
  from assms(1) have "sn = [] \<or> length sn = length pcs * length ms"
    by (rule prepare_Inr(3))
  then have ok: "sn = [] \<or> 0 + length (product_py pcs ms) \<le> length sn"
    by (auto simp: length_product_py)
  have "lo = None"
  proof (cases lo)
    case None
    then show ?thesis .
  next
    case (Some x)
    show ?thesis
    proof (cases x)
      case (Returned n)
      with Some loop_not_returned[OF l] show ?thesis by simp
    next
      case (Failed e)
      with Some loop_no_index_error[OF ok l] show ?thesis by simp
    next
      case (ModuleFailed j)
      with Some l have "\<exists>k<length (runs le).
          \<not> fst (run (runs le ! k) (world_after run (take k (runs le)) w))"
        by (auto dest: loop_module_failed)
      with assms(3) r show ?thesis by auto
    qed
  qed
  with c have out: "out = Returned 0" and evs: "evs = le @ [Percent 1 1 1]"
    by auto
  from \<open>lo = None\<close> l have "length (runs le) = length (product_py pcs ms)"
    by (auto dest: loop_done_length)
  with r have n: "length (runs evs) = length pcs * length ms"
    by (simp add: length_product_py)
  have empty: "evs = [Percent 1 1 1]" if "length pcs * length ms = 0"
  proof -
    from that have "product_py pcs ms = []"
      by (simp flip: length_0_conv add: length_product_py)
    with l have "le = []" by simp
    with evs show ?thesis by simp
  qed
  from out n evs empty show ?thesis
    by simp
qed

theorem C9_final_signal_witness:
  "prepare (ex_options ''pop,income'' ''sum,average'' ''a,b,c,d'') ex_table ex_names =
     Inr ([''pop'', ''income''], [''sum'', ''average''], [''a'', ''b'', ''c'', ''d'']) \<and>
   fst (always_ok
     (runs (fst (snd (main (ex_options ''pop,income'' ''sum,average'' ''a,b,c,d'')
                        ex_table ex_names always_ok 0))) ! 3)
     (world_after always_ok
        (take 3 (runs (fst (snd (main (ex_options ''pop,income'' ''sum,average'' ''a,b,c,d'')
                                   ex_table ex_names always_ok 0))))) 0)) \<and>
   fst (main (ex_options ''pop,income'' ''sum,average'' ''a,b,c,d'') ex_table ex_names
          always_ok 0) = Returned 0 \<and>
   length (runs (fst (snd (main (ex_options ''pop,income'' ''sum,average'' ''a,b,c,d'')
                             ex_table ex_names always_ok 0)))) = 4 \<and>
   last (fst (snd (main (ex_options ''pop,income'' ''sum,average'' ''a,b,c,d'')
                     ex_table ex_names always_ok 0))) = Percent 1 1 1"
proof -
  let ?o = "ex_options ''pop,income'' ''sum,average'' ''a,b,c,d''"
  let ?m = "main ?o ex_table ex_names always_ok 0"
  have p: "prepare ?o ex_table ex_names =
     Inr ([''pop'', ''income''], [''sum'', ''average''], [''a'', ''b'', ''c'', ''d''])"
    by (simp add: model_defs)
  have m: "?m = (fst ?m, fst (snd ?m), snd (snd ?m))"
    by simp
  have a: "\<forall>k<length (runs (fst (snd ?m))).
      fst (always_ok (runs (fst (snd ?m)) ! k)
             (world_after always_ok (take k (runs (fst (snd ?m)))) 0))"
    by (simp add: always_ok_def)
  have b: "fst (always_ok (runs (fst (snd ?m)) ! 3)
             (world_after always_ok (take 3 (runs (fst (snd ?m)))) 0))"
    by (simp add: always_ok_def)
  from C9_final_signal[OF p m a] p b show ?thesis
    by simp
qed

subsection \<open>C10: a table without numeric columns\<close>

text \<open>
  Claim C10. When no columns are requested, no names are given, and no column of the
  table has a numeric type, the resolved columns are empty, the number of jobs is 0, and
  the program returns 0 with the final signal as its only event: no module run was
  issued, and the outside is as it was.
\<close>

theorem C10_no_numeric_columns:
  assumes "o_points_columns opts = []"
      and "o_stats_columns opts = []"
      and "set an \<subseteq> dom ivc"
      and "\<forall>name\<in>set an. \<forall>t. ivc name = Some t \<longrightarrow> \<not> sql_type_is_numeric t"
  shows "prepare opts ivc an = Inr ([], split_py CHR '','' (o_method opts), []) \<and>
         int (length ([] :: string list)) * int (length (split_py CHR '','' (o_method opts))) = 0 \<and>
         main opts ivc an run w = (Returned 0, [Percent 1 1 1], w)"
proof -
  have "filter (\<lambda>name. case ivc name of None \<Rightarrow> False
                      | Some column_type \<Rightarrow> sql_type_is_numeric column_type) an = []"
    using assms(4) by (auto simp: filter_empty_conv split: option.splits)
  with assms(1,3) have r: "resolve_columns opts ivc an = Inr []"
    by (simp add: resolve_columns_def numeric_columns_filter)
  with assms(2) have p: "prepare opts ivc an = Inr ([], split_py CHR '','' (o_method opts), [])"
    by (simp add: prepare_def check_stats_columns_def)
  then show ?thesis
    by (simp add: main_def)
qed

theorem C10_no_numeric_columns_witness:
  "o_points_columns (ex_options [] ''sum,average'' []) = [] \<and>
   o_stats_columns (ex_options [] ''sum,average'' []) = [] \<and>
   set ex_text_names \<subseteq> dom ex_text_table \<and>
   \<not> sql_type_is_numeric ''TEXT'' \<and> \<not> sql_type_is_numeric ''VARCHAR(80)'' \<and>
   main (ex_options [] ''sum,average'' []) ex_text_table ex_text_names always_ok 0 =
     (Returned 0, [Percent 1 1 1], 0)"
proof -
  have a: "o_points_columns (ex_options [] ''sum,average'' []) = []"
    and b: "o_stats_columns (ex_options [] ''sum,average'' []) = []"
    by (simp_all add: ex_options_def)
  have d: "set ex_text_names \<subseteq> dom ex_text_table"
    by (simp add: ex_text_names_def ex_text_table_def)
  have n: "\<forall>name\<in>set ex_text_names. \<forall>t. ex_text_table name = Some t \<longrightarrow> \<not> sql_type_is_numeric t"
    by (simp add: model_defs)
  have t: "\<not> sql_type_is_numeric ''TEXT'' \<and> \<not> sql_type_is_numeric ''VARCHAR(80)''"
    by (simp add: model_defs)
  from C10_no_numeric_columns[OF a b d n, of always_ok 0] a b d t show ?thesis
    by blast
qed

end
